theory Spec2Isabelle
  imports Complex_Main
begin

section \<open>Arithmetic and errors\<close>

text \<open>
  The notebooks are dynamically typed. The operands of their expressions are numpy
  scalars (\<^verbatim>\<open>int64\<close> elements of an array built from integer lists, \<^verbatim>\<open>float64\<close>
  elements of the fitted parameters and of the arrays the solvers pass) and Python
  numbers, and every operator is numpy's, with its own promotion, rounding, overflow and
  wrap-around. The embedding does not fix that arithmetic: the functions take the
  operators as an argument, a record over the type \<open>'a\<close> of scalar values, and what is
  proved of them holds for every interpretation. The operators are total: numpy warns
  where Python would raise, and returns \<^verbatim>\<open>inf\<close> or \<^verbatim>\<open>nan\<close>.
\<close>

record 'a arith =
  op_add :: "'a \<Rightarrow> 'a \<Rightarrow> 'a"
  op_sub :: "'a \<Rightarrow> 'a \<Rightarrow> 'a"
  op_mul :: "'a \<Rightarrow> 'a \<Rightarrow> 'a"
  op_div :: "'a \<Rightarrow> 'a \<Rightarrow> 'a"
  op_pow :: "'a \<Rightarrow> nat \<Rightarrow> 'a"
  op_pow_half :: "'a \<Rightarrow> 'a"
  lit :: "int \<Rightarrow> 'a"
  fzero :: "'a"
  to_f64 :: "'a \<Rightarrow> 'a"

text \<open>
  \<open>op_pow x n\<close> is \<^verbatim>\<open>x ** n\<close> for an integer literal \<open>n\<close>, \<open>op_pow_half x\<close> is
  \<^verbatim>\<open>x ** 0.5\<close>, \<open>lit n\<close> is the integer literal \<open>n\<close>, \<open>fzero\<close> is an element of
  \<^verbatim>\<open>np.zeros\<close>, and \<open>to_f64\<close> is the conversion that a store into such an array applies.
\<close>

subsection \<open>An idealised interpretation\<close>

text \<open>
  Exact reals with the three special values of IEEE 754. Rounding, overflow, the sign of
  zero and integer wrap-around are absent (a zero divisor counts as \<^verbatim>\<open>+0\<close>), so this
  is not numpy's arithmetic; it serves to run the functions on concrete data and to
  state properties that do not depend on how finite values are rounded.
\<close>

datatype npfloat = Fin real | PInf | NInf | NaN

fun is_finite :: "npfloat \<Rightarrow> bool" where
  "is_finite (Fin r) = True"
| "is_finite PInf = False"
| "is_finite NInf = False"
| "is_finite NaN = False"

fun np_neg :: "npfloat \<Rightarrow> npfloat" where
  "np_neg (Fin r) = Fin (- r)"
| "np_neg PInf = NInf"
| "np_neg NInf = PInf"
| "np_neg NaN = NaN"

fun np_add :: "npfloat \<Rightarrow> npfloat \<Rightarrow> npfloat" where
  "np_add (Fin r) (Fin s) = Fin (r + s)"
| "np_add (Fin r) PInf = PInf"
| "np_add (Fin r) NInf = NInf"
| "np_add PInf (Fin s) = PInf"
| "np_add PInf PInf = PInf"
| "np_add PInf NInf = NaN"
| "np_add NInf (Fin s) = NInf"
| "np_add NInf NInf = NInf"
| "np_add NInf PInf = NaN"
| "np_add NaN y = NaN"
| "np_add x NaN = NaN"

definition np_sub :: "npfloat \<Rightarrow> npfloat \<Rightarrow> npfloat" where
  "np_sub x y = np_add x (np_neg y)"

text \<open>An infinity carrying the sign of \<open>r\<close>; \<open>0 * inf\<close> is \<^verbatim>\<open>nan\<close>.\<close>

definition signed_inf :: "real \<Rightarrow> npfloat" where
  "signed_inf r = (if r = 0 then NaN else if 0 < r then PInf else NInf)"

fun np_mul :: "npfloat \<Rightarrow> npfloat \<Rightarrow> npfloat" where
  "np_mul (Fin r) (Fin s) = Fin (r * s)"
| "np_mul (Fin r) PInf = signed_inf r"
| "np_mul (Fin r) NInf = signed_inf (- r)"
| "np_mul PInf (Fin s) = signed_inf s"
| "np_mul NInf (Fin s) = signed_inf (- s)"
| "np_mul PInf PInf = PInf"
| "np_mul PInf NInf = NInf"
| "np_mul NInf PInf = NInf"
| "np_mul NInf NInf = PInf"
| "np_mul NaN y = NaN"
| "np_mul x NaN = NaN"

text \<open>
  Division: a finite value over zero is an infinity of its sign (\<^verbatim>\<open>nan\<close> for \<open>0/0\<close>),
  a finite value over an infinity is zero, an infinity over an infinity is \<^verbatim>\<open>nan\<close>.
\<close>

fun np_div :: "npfloat \<Rightarrow> npfloat \<Rightarrow> npfloat" where
  "np_div (Fin r) (Fin s) = (if s = 0 then signed_inf r else Fin (r / s))"
| "np_div (Fin r) PInf = Fin 0"
| "np_div (Fin r) NInf = Fin 0"
| "np_div PInf (Fin s) = (if 0 \<le> s then PInf else NInf)"
| "np_div NInf (Fin s) = (if 0 \<le> s then NInf else PInf)"
| "np_div PInf PInf = NaN"
| "np_div PInf NInf = NaN"
| "np_div NInf PInf = NaN"
| "np_div NInf NInf = NaN"
| "np_div NaN y = NaN"
| "np_div x NaN = NaN"

primrec np_pow :: "npfloat \<Rightarrow> nat \<Rightarrow> npfloat" where
  "np_pow x 0 = Fin 1"
| "np_pow x (Suc n) = np_mul x (np_pow x n)"

text \<open>\<^verbatim>\<open>x ** 0.5\<close>: \<^verbatim>\<open>nan\<close> below zero, \<^verbatim>\<open>inf\<close> at both infinities (C's \<^verbatim>\<open>pow\<close>).\<close>

fun np_pow_half :: "npfloat \<Rightarrow> npfloat" where
  "np_pow_half (Fin r) = (if r < 0 then NaN else Fin (sqrt r))"
| "np_pow_half PInf = PInf"
| "np_pow_half NInf = PInf"
| "np_pow_half NaN = NaN"

definition ideal :: "npfloat arith" where
  "ideal = \<lparr>op_add = np_add, op_sub = np_sub, op_mul = np_mul, op_div = np_div,
            op_pow = np_pow, op_pow_half = np_pow_half, lit = (\<lambda>n. Fin (of_int n)),
            fzero = Fin 0, to_f64 = (\<lambda>x. x)\<rparr>"

subsection \<open>Errors and indexing\<close>

text \<open>
  The exceptions the notebooks' own statements can raise: an index out of range, and a
  sequence of the wrong length (tuple unpacking, a table column).
\<close>

datatype error = IndexError | ValueError

definition bind_err :: "error + 'a \<Rightarrow> ('a \<Rightarrow> error + 'b) \<Rightarrow> error + 'b" where
  "bind_err m f = (case m of Inl e \<Rightarrow> Inl e | Inr v \<Rightarrow> f v)"

text \<open>\<^verbatim>\<open>xs[i]\<close> and \<^verbatim>\<open>xs[i] = v\<close> for a non-negative index.\<close>

definition get :: "'a list \<Rightarrow> nat \<Rightarrow> error + 'a" where
  "get xs i = (if i < length xs then Inr (xs ! i) else Inl IndexError)"

definition put :: "'a list \<Rightarrow> nat \<Rightarrow> 'a \<Rightarrow> error + 'a list" where
  "put xs i v = (if i < length xs then Inr (xs[i := v]) else Inl IndexError)"

text \<open>\<^verbatim>\<open>np.zeros(n)\<close>.\<close>

definition zeros_on :: "'a arith \<Rightarrow> nat \<Rightarrow> 'a list" where
  "zeros_on ar n = replicate n (fzero ar)"

section \<open>Regression notebook\<close>

subsection \<open>The rate model\<close>

text \<open>
  \<^verbatim>\<open>model(x, *parameters)\<close>. \<open>x\<close> is the two-dimensional array of the independent
  variables, one row per variable. The function binds the number of columns to the local
  name \<^verbatim>\<open>ndtps\<close> and never reads it: the array it allocates and the loop it runs are
  sized by \<^verbatim>\<open>ndpts\<close>, the module-level name that the data cell sets to
  \<^verbatim>\<open>len(rate_exp)\<close>. That name is the argument \<open>ndpts\<close> here.
\<close>

fun model_loop_on ::
  "'a arith \<Rightarrow> 'a list \<Rightarrow> 'a list \<Rightarrow> 'a list \<Rightarrow> 'a \<Rightarrow> 'a \<Rightarrow> 'a \<Rightarrow> 'a \<Rightarrow> 'a \<Rightarrow>
   nat list \<Rightarrow> 'a list \<Rightarrow> error + 'a list" where
  "model_loop_on ar CA CB CC b1 b2 b3 b4 b5 [] rate_model = Inr rate_model"
| "model_loop_on ar CA CB CC b1 b2 b3 b4 b5 (i # rest) rate_model =
     bind_err (get CB i) (\<lambda>CB_i.
     bind_err (get CC i) (\<lambda>CC_i.
     bind_err (get CA i) (\<lambda>CA_i.
     bind_err
       (put rate_model i
          (to_f64 ar
             (op_div ar (op_sub ar (op_mul ar b1 CB_i) (op_div ar CC_i b5))
                (op_add ar
                   (op_add ar (op_add ar (lit ar 1) (op_mul ar b2 CA_i)) (op_mul ar b3 CB_i))
                   (op_mul ar b4 CC_i)))))
       (model_loop_on ar CA CB CC b1 b2 b3 b4 b5 rest))))"

definition model_on ::
  "'a arith \<Rightarrow> nat \<Rightarrow> 'a list list \<Rightarrow> 'a list \<Rightarrow> error + 'a list" where
  "model_on ar ndpts x parameters =
     bind_err (get x 0) (\<lambda>CA.
     bind_err (get x 1) (\<lambda>CB.
     bind_err (get x 2) (\<lambda>CC.
     (let ndtps = length CA in
     bind_err (get parameters 0) (\<lambda>b1.
     bind_err (get parameters 1) (\<lambda>b2.
     bind_err (get parameters 2) (\<lambda>b3.
     bind_err (get parameters 3) (\<lambda>b4.
     bind_err (get parameters 4) (\<lambda>b5.
     model_loop_on ar CA CB CC b1 b2 b3 b4 b5 [0..<ndpts] (zeros_on ar ndpts))))))))))"

subsection \<open>Confidence intervals\<close>

text \<open>
  The iterable of the loop, \<^verbatim>\<open>zip(range(ndpts),popt,np.diag(pcov))\<close>; \<open>pvar\<close> is
  \<^verbatim>\<open>np.diag(pcov)\<close>. \<open>zip\<close> stops at the shortest of its arguments, as Python's does.
\<close>

definition ci_items :: "nat \<Rightarrow> 'a list \<Rightarrow> 'a list \<Rightarrow> (nat \<times> 'a \<times> 'a) list" where
  "ci_items ndpts popt pvar = zip [0..<ndpts] (zip popt pvar)"

text \<open>The body of the loop, run over the items; a row of the array \<^verbatim>\<open>ci\<close> is a pair.\<close>

fun ci_loop_on ::
  "'a arith \<Rightarrow> 'a \<Rightarrow> (nat \<times> 'a \<times> 'a) list \<Rightarrow> ('a \<times> 'a) list \<Rightarrow> error + ('a \<times> 'a) list" where
  "ci_loop_on ar tval [] ci = Inr ci"
| "ci_loop_on ar tval ((i, p, var) # rest) ci =
     (let sigma = op_pow_half ar var in
      bind_err
        (put ci i (to_f64 ar (op_sub ar p (op_mul ar sigma tval)),
                   to_f64 ar (op_add ar p (op_mul ar sigma tval))))
        (ci_loop_on ar tval rest))"

text \<open>
  From \<^verbatim>\<open>alpha\<close> to the filled array \<^verbatim>\<open>ci = np.zeros([npars,2])\<close>. The quantile
  function of Student's t distribution (\<^verbatim>\<open>tdist.ppf\<close>) belongs to the statistics library
  and is the argument \<open>ppf\<close>.
\<close>

definition ci_array_on ::
  "'a arith \<Rightarrow> (real \<Rightarrow> int \<Rightarrow> 'a) \<Rightarrow> real \<Rightarrow> nat \<Rightarrow> nat \<Rightarrow> 'a list \<Rightarrow> 'a list \<Rightarrow>
   error + ('a \<times> 'a) list" where
  "ci_array_on ar ppf alpha ndpts npars popt pvar =
     (let dof = max 0 (int ndpts - int npars);
          tval = ppf (1 - alpha / 2) dof;
          ci = replicate npars (fzero ar, fzero ar)
      in ci_loop_on ar tval (ci_items ndpts popt pvar) ci)"

text \<open>\<^verbatim>\<open>ci_width = ci[:,1]-ci[:,0]\<close>.\<close>

definition conf_int_on ::
  "'a arith \<Rightarrow> (real \<Rightarrow> int \<Rightarrow> 'a) \<Rightarrow> real \<Rightarrow> nat \<Rightarrow> nat \<Rightarrow> 'a list \<Rightarrow> 'a list \<Rightarrow>
   error + 'a list" where
  "conf_int_on ar ppf alpha ndpts npars popt pvar =
     bind_err (ci_array_on ar ppf alpha ndpts npars popt pvar) (\<lambda>ci.
     Inr (map (\<lambda>(lo, hi). op_sub ar hi lo) ci))"

text \<open>
  The output table: one row per entry of \<^verbatim>\<open>param_names\<close>, holding the value, the
  half width and the relative half width in percent. Unpacking \<^verbatim>\<open>popt\<close> into five
  names and building a five-row table both raise when the lengths differ.
\<close>

definition param_names :: "string list" where
  "param_names = [''b1'', ''b2'', ''b3'', ''b4'', ''b5'']"

definition soln_on ::
  "'a arith \<Rightarrow> (real \<Rightarrow> int \<Rightarrow> 'a) \<Rightarrow> real \<Rightarrow> nat \<Rightarrow> nat \<Rightarrow> 'a list \<Rightarrow> 'a list \<Rightarrow>
   error + ('a \<times> 'a \<times> 'a) list" where
  "soln_on ar ppf alpha ndpts npars popt pvar =
     bind_err (conf_int_on ar ppf alpha ndpts npars popt pvar) (\<lambda>ci_width.
     if length popt = length param_names \<and> length ci_width = length param_names
     then Inr (map (\<lambda>(p, w). (p, op_div ar w (lit ar 2),
                               op_mul ar (op_div ar (op_div ar w (lit ar 2)) p) (lit ar 100)))
                 (zip popt ci_width))
     else Inl ValueError)"

subsection \<open>Residual summary\<close>

text \<open>
  The loop that fills \<^verbatim>\<open>rate_predict\<close> and accumulates \<^verbatim>\<open>ssr\<close>. It reads the data
  lists directly (here the arguments \<open>ca\<close>, \<open>cb\<close>, \<open>cc\<close>, \<open>r\<close>) and spells the rate
  expression out a second time.
\<close>

fun predict_loop_on ::
  "'a arith \<Rightarrow> 'a list \<Rightarrow> 'a list \<Rightarrow> 'a list \<Rightarrow> 'a list \<Rightarrow> 'a \<Rightarrow> 'a \<Rightarrow> 'a \<Rightarrow> 'a \<Rightarrow> 'a \<Rightarrow>
   nat list \<Rightarrow> 'a list \<Rightarrow> 'a \<Rightarrow> error + ('a list \<times> 'a)" where
  "predict_loop_on ar ca cb cc r b1 b2 b3 b4 b5 [] rate_predict ssr = Inr (rate_predict, ssr)"
| "predict_loop_on ar ca cb cc r b1 b2 b3 b4 b5 (i # rest) rate_predict ssr =
     bind_err (get cb i) (\<lambda>cb_i.
     bind_err (get cc i) (\<lambda>cc_i.
     bind_err (get ca i) (\<lambda>ca_i.
     bind_err
       (put rate_predict i
          (to_f64 ar
             (op_div ar (op_sub ar (op_mul ar b1 cb_i) (op_div ar cc_i b5))
                (op_add ar
                   (op_add ar (op_add ar (lit ar 1) (op_mul ar b2 ca_i)) (op_mul ar b3 cb_i))
                   (op_mul ar b4 cc_i)))))
       (\<lambda>rate_predict.
     bind_err (get rate_predict i) (\<lambda>rp_i.
     bind_err (get r i) (\<lambda>r_i.
     (let sqr_resid = op_pow ar (op_sub ar rp_i r_i) 2;
          ssr = op_add ar ssr sqr_resid
      in predict_loop_on ar ca cb cc r b1 b2 b3 b4 b5 rest rate_predict ssr)))))))"

definition residual_summary_on ::
  "'a arith \<Rightarrow> nat \<Rightarrow> 'a list \<Rightarrow> 'a list \<Rightarrow> 'a list \<Rightarrow> 'a list \<Rightarrow> 'a list \<Rightarrow>
   error + ('a list \<times> 'a)" where
  "residual_summary_on ar ndpts ca cb cc r popt =
     (case popt of
        [b1, b2, b3, b4, b5] \<Rightarrow>
          predict_loop_on ar ca cb cc r b1 b2 b3 b4 b5 [0..<ndpts] (zeros_on ar ndpts) (lit ar 0)
      | _ \<Rightarrow> Inl ValueError)"

section \<open>Equation-solver notebook\<close>

text \<open>
  \<^verbatim>\<open>eqns(U)\<close>, with the module-level constants \<^verbatim>\<open>a\<close> and \<^verbatim>\<open>b\<close> as arguments. The
  three reads come first, then the array of \<^verbatim>\<open>len(U)\<close> zeros and the three stores.
\<close>

definition eqns_on :: "'a arith \<Rightarrow> 'a \<Rightarrow> 'a \<Rightarrow> 'a list \<Rightarrow> error + 'a list" where
  "eqns_on ar a b U =
     bind_err (get U 0) (\<lambda>y1.
     bind_err (get U 1) (\<lambda>y2.
     bind_err (get U 2) (\<lambda>y3.
     bind_err (put (zeros_on ar (length U)) 0
                 (to_f64 ar
                    (op_sub ar (op_add ar (op_mul ar a (op_pow ar y1 2)) (op_mul ar b y1))
                       (lit ar 10))))
       (\<lambda>setzero.
     bind_err (put setzero 1
                 (to_f64 ar
                    (op_sub ar (op_add ar (op_mul ar b (op_pow ar y1 2)) y2) (lit ar 12))))
       (\<lambda>setzero.
     bind_err (put setzero 2 (to_f64 ar (op_sub ar (op_add ar b y3) (lit ar 8))))
       (\<lambda>setzero.
     Inr setzero))))))"

section \<open>The functions under the idealised interpretation\<close>

text \<open>
  The instances on which the notebooks' data are evaluated and on which the properties
  that do not depend on rounding are stated.
\<close>

definition model :: "nat \<Rightarrow> npfloat list list \<Rightarrow> npfloat list \<Rightarrow> error + npfloat list" where
  "model = model_on ideal"

definition soln ::
  "(real \<Rightarrow> int \<Rightarrow> npfloat) \<Rightarrow> real \<Rightarrow> nat \<Rightarrow> nat \<Rightarrow> npfloat list \<Rightarrow> npfloat list \<Rightarrow>
   error + (npfloat \<times> npfloat \<times> npfloat) list" where
  "soln = soln_on ideal"

definition residual_summary ::
  "nat \<Rightarrow> npfloat list \<Rightarrow> npfloat list \<Rightarrow> npfloat list \<Rightarrow> npfloat list \<Rightarrow> npfloat list \<Rightarrow>
   error + (npfloat list \<times> npfloat)" where
  "residual_summary = residual_summary_on ideal"

definition eqns :: "npfloat \<Rightarrow> npfloat \<Rightarrow> npfloat list \<Rightarrow> error + npfloat list" where
  "eqns = eqns_on ideal"

subsection \<open>The fitting data\<close>

definition rate_exp :: "npfloat list" where
  "rate_exp = map Fin [8.55, 3.79, 4.82, 0.02, 2.75, 14.39, 2.54, 4.35, 13, 8.5, 0.05, 11.32, 3.13]"

definition CA_exp :: "npfloat list" where
  "CA_exp = map Fin [470, 285, 470, 470, 470, 100, 100, 470, 100, 100, 100, 285, 285]"

definition CB_exp :: "npfloat list" where
  "CB_exp = map Fin [300, 80, 300, 80, 80, 190, 80, 190, 300, 300, 80, 300, 190]"

definition CC_exp :: "npfloat list" where
  "CC_exp = map Fin [10, 10, 120, 120, 10, 10, 65, 65, 54, 120, 120, 10, 120]"

definition guess :: "npfloat list" where
  "guess = map Fin [1, 0.1, 0.1, 0.1, 1]"

section \<open>Basic facts\<close>

lemma bind_err_Inr [simp]: "bind_err (Inr v) f = f v"
  by (simp add: bind_err_def)

lemma bind_err_Inl [simp]: "bind_err (Inl e) f = Inl e"
  by (simp add: bind_err_def)

lemma get_in [simp]: "i < length xs \<Longrightarrow> get xs i = Inr (xs ! i)"
  by (simp add: get_def)

lemma get_out [simp]: "length xs \<le> i \<Longrightarrow> get xs i = Inl IndexError"
  by (simp add: get_def)

lemma put_in [simp]: "i < length xs \<Longrightarrow> put xs i v = Inr (xs[i := v])"
  by (simp add: put_def)

lemma put_out [simp]: "length xs \<le> i \<Longrightarrow> put xs i v = Inl IndexError"
  by (simp add: put_def)

lemma length_zeros_on [simp]: "length (zeros_on ar n) = n"
  by (simp add: zeros_on_def)

lemma nth_zeros_on [simp]: "i < n \<Longrightarrow> zeros_on ar n ! i = fzero ar"
  by (simp add: zeros_on_def)

lemma ideal_ops [simp]:
  "op_add ideal = np_add" "op_sub ideal = np_sub" "op_mul ideal = np_mul"
  "op_div ideal = np_div" "op_pow ideal = np_pow" "op_pow_half ideal = np_pow_half"
  "lit ideal n = Fin (of_int n)" "fzero ideal = Fin 0" "to_f64 ideal x = x"
  by (simp_all add: ideal_def)

text \<open>
  Under the idealised interpretation, operations that never turn a value that is not
  finite into a finite one.
\<close>

lemma not_finite_div_zero: "\<not> is_finite (np_div x (Fin 0))"
  by (cases x) (simp_all add: signed_inf_def)

lemma not_finite_div_left: "\<not> is_finite x \<Longrightarrow> \<not> is_finite (np_div x y)"
  by (cases x; cases y) simp_all

lemma not_finite_sub_right: "\<not> is_finite y \<Longrightarrow> \<not> is_finite (np_sub x y)"
  by (cases x; cases y) (simp_all add: np_sub_def)

lemma not_finite_mul_right: "\<not> is_finite y \<Longrightarrow> \<not> is_finite (np_mul x y)"
  by (cases x; cases y) (simp_all add: signed_inf_def)

lemma not_finite_mul_left: "\<not> is_finite x \<Longrightarrow> \<not> is_finite (np_mul x y)"
  by (cases x; cases y) (simp_all add: signed_inf_def)

lemma not_finite_width:
  "\<not> is_finite m \<Longrightarrow> \<not> is_finite (np_sub (np_add p m) (np_sub p m))"
  by (cases p; cases m) (simp_all add: np_sub_def)

section \<open>The rate model and the residual summary\<close>

text \<open>
  The loop of the model over indices that are all in range: it returns, keeps the length
  of the array, and leaves the rate expression at every index it visited.
\<close>

lemma model_loop_on_in_range:
  assumes "\<forall>i\<in>set idx. i < length CA \<and> i < length CB \<and> i < length CC \<and> i < length rm"
  shows "\<exists>out. model_loop_on ar CA CB CC b1 b2 b3 b4 b5 idx rm = Inr out \<and>
           length out = length rm \<and>
           (\<forall>j<length rm. out ! j =
              (if j \<in> set idx
               then to_f64 ar
                      (op_div ar (op_sub ar (op_mul ar b1 (CB ! j)) (op_div ar (CC ! j) b5))
                         (op_add ar
                            (op_add ar (op_add ar (lit ar 1) (op_mul ar b2 (CA ! j)))
                               (op_mul ar b3 (CB ! j)))
                            (op_mul ar b4 (CC ! j))))
               else rm ! j))"
  using assms
proof (induction idx arbitrary: rm)
  case Nil
  then show ?case by simp
next
  case (Cons i rest)
  let ?v = "to_f64 ar
              (op_div ar (op_sub ar (op_mul ar b1 (CB ! i)) (op_div ar (CC ! i) b5))
                 (op_add ar
                    (op_add ar (op_add ar (lit ar 1) (op_mul ar b2 (CA ! i)))
                       (op_mul ar b3 (CB ! i)))
                    (op_mul ar b4 (CC ! i))))"
  have inr: "i < length CA" "i < length CB" "i < length CC" "i < length rm"
    using Cons.prems by simp_all
  have "\<forall>k\<in>set rest. k < length CA \<and> k < length CB \<and> k < length CC \<and> k < length (rm[i := ?v])"
    using Cons.prems by simp
  from Cons.IH [OF this] obtain out where
    out: "model_loop_on ar CA CB CC b1 b2 b3 b4 b5 rest (rm[i := ?v]) = Inr out"
      "length out = length rm"
      "\<forall>j<length rm. out ! j =
          (if j \<in> set rest
           then to_f64 ar
                  (op_div ar (op_sub ar (op_mul ar b1 (CB ! j)) (op_div ar (CC ! j) b5))
                     (op_add ar
                        (op_add ar (op_add ar (lit ar 1) (op_mul ar b2 (CA ! j)))
                           (op_mul ar b3 (CB ! j)))
                        (op_mul ar b4 (CC ! j))))
           else rm[i := ?v] ! j)"
    by auto
  have "model_loop_on ar CA CB CC b1 b2 b3 b4 b5 (i # rest) rm = Inr out"
    using inr out(1) by simp
  moreover have "\<forall>j<length rm. out ! j =
              (if j \<in> set (i # rest)
               then to_f64 ar
                      (op_div ar (op_sub ar (op_mul ar b1 (CB ! j)) (op_div ar (CC ! j) b5))
                         (op_add ar
                            (op_add ar (op_add ar (lit ar 1) (op_mul ar b2 (CA ! j)))
                               (op_mul ar b3 (CB ! j)))
                            (op_mul ar b4 (CC ! j))))
               else rm ! j)"
    using out(3) inr by (auto simp: nth_list_update)
  ultimately show ?case using out(2) by blast
qed

lemma model_on_returns:
  assumes "ndpts \<le> length CA" "ndpts \<le> length CB" "ndpts \<le> length CC"
  shows "\<exists>out. model_on ar ndpts [CA, CB, CC] [b1, b2, b3, b4, b5] = Inr out \<and>
           length out = ndpts \<and>
           (\<forall>j<ndpts. out ! j =
               to_f64 ar
                 (op_div ar (op_sub ar (op_mul ar b1 (CB ! j)) (op_div ar (CC ! j) b5))
                    (op_add ar
                       (op_add ar (op_add ar (lit ar 1) (op_mul ar b2 (CA ! j)))
                          (op_mul ar b3 (CB ! j)))
                       (op_mul ar b4 (CC ! j)))))"
proof -
  have "\<forall>i\<in>set [0..<ndpts].
          i < length CA \<and> i < length CB \<and> i < length CC \<and> i < length (zeros_on ar ndpts)"
    using assms by simp
  from model_loop_on_in_range [OF this, of ar b1 b2 b3 b4 b5]
  show ?thesis by (simp add: model_on_def)
qed

lemma model_returns:
  assumes "ndpts \<le> length CA" "ndpts \<le> length CB" "ndpts \<le> length CC"
  shows "\<exists>out. model ndpts [CA, CB, CC] [b1, b2, b3, b4, b5] = Inr out \<and> length out = ndpts \<and>
           (\<forall>j<ndpts. out ! j =
               np_div (np_sub (np_mul b1 (CB ! j)) (np_div (CC ! j) b5))
                      (np_add (np_add (np_add (Fin 1) (np_mul b2 (CA ! j))) (np_mul b3 (CB ! j)))
                         (np_mul b4 (CC ! j))))"
  using model_on_returns [OF assms, of ideal b1 b2 b3 b4 b5] by (simp add: model_def)

text \<open>
  The loop of the residual summary computes the same array as the loop of the model, and
  fails where it fails, as long as the observed rates cover the indices.
\<close>

lemma predict_loop_on_model_loop_on:
  assumes "\<forall>i\<in>set idx. i < length r"
  shows "map_sum id fst (predict_loop_on ar ca cb cc r b1 b2 b3 b4 b5 idx rp ssr) =
         model_loop_on ar ca cb cc b1 b2 b3 b4 b5 idx rp"
  using assms
proof (induction idx arbitrary: rp ssr)
  case Nil
  then show ?case by simp
next
  case (Cons i rest)
  then show ?case
    by (cases "i < length cb"; cases "i < length cc"; cases "i < length ca"; cases "i < length rp")
       (simp_all add: get_def put_def Let_def)
qed

lemma residual_summary_on_model_on:
  assumes "length r = ndpts"
  shows "map_sum id fst (residual_summary_on ar ndpts ca cb cc r [b1, b2, b3, b4, b5]) =
         model_on ar ndpts [ca, cb, cc] [b1, b2, b3, b4, b5]"
proof -
  have "\<forall>i\<in>set [0..<ndpts]. i < length r"
    using assms by simp
  from predict_loop_on_model_loop_on [OF this]
  show ?thesis by (simp add: residual_summary_on_def model_on_def)
qed

lemma residual_summary_model:
  assumes "length r = ndpts"
  shows "map_sum id fst (residual_summary ndpts ca cb cc r [b1, b2, b3, b4, b5]) =
         model ndpts [ca, cb, cc] [b1, b2, b3, b4, b5]"
  using residual_summary_on_model_on [OF assms, of ideal]
  by (simp add: residual_summary_def model_def)

text \<open>
  Claim C1. The claim asks for a predicted rate at every observation index \<open>i < N\<close> of
  the sequences that \<open>model\<close> is given. The function returns \<^verbatim>\<open>ndpts\<close> entries instead:
  with the thirteen observed rates of the notebook (\<^verbatim>\<open>ndpts = 13\<close>) and fourteen
  observations in each concentration sequence, reading the prediction of observation 13
  from the result is out of range.
\<close>

theorem model_missing_entry:
  "13 < length (CA_exp @ [Fin 100]) \<and>
   bind_err (model 13 [CA_exp @ [Fin 100], CB_exp @ [Fin 80], CC_exp @ [Fin 10]] guess)
     (\<lambda>predicted. get predicted 13) = Inl IndexError"
proof -
  from model_returns [of 13 "CA_exp @ [Fin 100]" "CB_exp @ [Fin 80]" "CC_exp @ [Fin 10]"
      "Fin 1" "Fin 0.1" "Fin 0.1" "Fin 0.1" "Fin 1"]
  obtain out where
    "model 13 [CA_exp @ [Fin 100], CB_exp @ [Fin 80], CC_exp @ [Fin 10]] guess = Inr out"
    "length out = 13"
    by (auto simp: CA_exp_def CB_exp_def CC_exp_def guess_def)
  then show ?thesis
    by (simp add: CA_exp_def)
qed

text \<open>
  Claim C6. The length of the array that \<open>model\<close> returns is \<^verbatim>\<open>ndpts\<close>, not the
  length of the sequences it is given. With the thirteen observed rates of the notebook
  (\<^verbatim>\<open>ndpts = 13\<close>) and fourteen observations in each concentration sequence, the result
  has thirteen entries; with a single observation, the loop reads index 1 and raises.
\<close>

theorem model_length_global:
  "map_sum id length
     (model 13 [CA_exp @ [Fin 100], CB_exp @ [Fin 80], CC_exp @ [Fin 10]] guess) = Inr 13 \<and>
   length (CA_exp @ [Fin 100]) = 14 \<and>
   model 13 [[Fin 100], [Fin 80], [Fin 10]] guess = Inl IndexError"
proof -
  have "ndpts \<le> length CA \<Longrightarrow> ndpts \<le> length CB \<Longrightarrow> ndpts \<le> length CC \<Longrightarrow>
        map_sum id length (model ndpts [CA, CB, CC] [b1, b2, b3, b4, b5]) = Inr ndpts"
    for ndpts CA CB CC b1 b2 b3 b4 b5
    using model_returns [of ndpts CA CB CC b1 b2 b3 b4 b5] by auto
  from this [of 13 "CA_exp @ [Fin 100]" "CB_exp @ [Fin 80]" "CC_exp @ [Fin 10]"]
  have "map_sum id length
     (model 13 [CA_exp @ [Fin 100], CB_exp @ [Fin 80], CC_exp @ [Fin 10]] guess) = Inr 13"
    by (simp add: CA_exp_def CB_exp_def CC_exp_def guess_def)
  moreover have "length (CA_exp @ [Fin 100]) = 14"
    by (simp add: CA_exp_def)
  moreover have "model 13 [[Fin 100], [Fin 80], [Fin 10]] guess = Inl IndexError"
    by (simp add: guess_def model_def model_on_def zeros_on_def upt_rec)
  ultimately show ?thesis by blast
qed

text \<open>
  Claim C7. For every vector of five fitted parameters, on a dataset whose sequences
  cover the \<^verbatim>\<open>ndpts\<close> observations, the residual summary returns, and the array
  \<^verbatim>\<open>rate_predict\<close> it has filled is the array that \<open>model\<close> returns at the same
  parameters on the same data.
\<close>

theorem rate_predict_matches_model:
  assumes "length popt = 5" "length r = ndpts"
      and "ndpts \<le> length ca" "ndpts \<le> length cb" "ndpts \<le> length cc"
  shows "\<exists>rate_predict ssr.
           residual_summary ndpts ca cb cc r popt = Inr (rate_predict, ssr) \<and>
           model ndpts [ca, cb, cc] popt = Inr rate_predict"
proof -
  from assms(1) obtain b1 b2 b3 b4 b5 where popt: "popt = [b1, b2, b3, b4, b5]"
    by (auto simp: length_Suc_conv eval_nat_numeral)
  from model_returns [OF assms(3-5), of b1 b2 b3 b4 b5] obtain out where
    out: "model ndpts [ca, cb, cc] [b1, b2, b3, b4, b5] = Inr out"
    by blast
  with residual_summary_model [OF assms(2), of ca cb cc b1 b2 b3 b4 b5]
  have "map_sum id fst (residual_summary ndpts ca cb cc r [b1, b2, b3, b4, b5]) = Inr out"
    by simp
  then obtain ssr where "residual_summary ndpts ca cb cc r [b1, b2, b3, b4, b5] = Inr (out, ssr)"
    by (cases "residual_summary ndpts ca cb cc r [b1, b2, b3, b4, b5]") auto
  with out popt show ?thesis by blast
qed

theorem rate_predict_matches_model_witness:
  "length guess = 5 \<and> length rate_exp = 13 \<and>
   13 \<le> length CA_exp \<and> 13 \<le> length CB_exp \<and> 13 \<le> length CC_exp \<and>
   (\<exists>rate_predict ssr.
      residual_summary 13 CA_exp CB_exp CC_exp rate_exp guess = Inr (rate_predict, ssr) \<and>
      model 13 [CA_exp, CB_exp, CC_exp] guess = Inr rate_predict)"
  using rate_predict_matches_model [of guess rate_exp 13 CA_exp CB_exp CC_exp]
  by (simp add: CA_exp_def CB_exp_def CC_exp_def rate_exp_def guess_def)

text \<open>
  Claim C8. Let the arithmetic be any in which a division by a zero value gives a value
  that is not finite, and in which a value that is not finite stays so as the right
  operand of a subtraction, as the left operand of a division and through a store
  (IEEE 754 arithmetic as numpy applies it is one). When \<open>\<beta>5\<close> is zero, or the
  denominator that the code computes for observation \<open>i\<close> is zero, neither the model
  nor the loop of the residual summary raises: both return, and entry \<open>i\<close> of the array
  is not finite.
\<close>

theorem degenerate_rate_not_finite:
  assumes div_zero: "\<forall>x z. is_zero z \<longrightarrow> \<not> fin (op_div ar x z)"
      and sub_right: "\<forall>x y. \<not> fin y \<longrightarrow> \<not> fin (op_sub ar x y)"
      and div_left: "\<forall>x y. \<not> fin x \<longrightarrow> \<not> fin (op_div ar x y)"
      and store: "\<forall>x. \<not> fin x \<longrightarrow> \<not> fin (to_f64 ar x)"
      and range: "i < ndpts" "ndpts \<le> length ca" "ndpts \<le> length cb" "ndpts \<le> length cc"
        "length r = ndpts"
      and degenerate:
        "is_zero b5 \<or>
         is_zero (op_add ar
                    (op_add ar (op_add ar (lit ar 1) (op_mul ar b2 (ca ! i)))
                       (op_mul ar b3 (cb ! i)))
                    (op_mul ar b4 (cc ! i)))"
  shows "(\<exists>rate_model. model_on ar ndpts [ca, cb, cc] [b1, b2, b3, b4, b5] = Inr rate_model \<and>
            \<not> fin (rate_model ! i)) \<and>
         (\<exists>rate_predict ssr.
            residual_summary_on ar ndpts ca cb cc r [b1, b2, b3, b4, b5] =
              Inr (rate_predict, ssr) \<and>
            \<not> fin (rate_predict ! i))"
proof -
  let ?num = "op_sub ar (op_mul ar b1 (cb ! i)) (op_div ar (cc ! i) b5)"
  let ?den = "op_add ar
                (op_add ar (op_add ar (lit ar 1) (op_mul ar b2 (ca ! i)))
                   (op_mul ar b3 (cb ! i)))
                (op_mul ar b4 (cc ! i))"
  from model_on_returns [OF range(2-4), of ar b1 b2 b3 b4 b5] range(1) obtain out where
    out: "model_on ar ndpts [ca, cb, cc] [b1, b2, b3, b4, b5] = Inr out"
      "out ! i = to_f64 ar (op_div ar ?num ?den)"
    by auto
  have "\<not> fin (op_div ar ?num ?den)"
    using degenerate
  proof
    assume "is_zero b5"
    with div_zero have "\<not> fin (op_div ar (cc ! i) b5)"
      by blast
    with sub_right have "\<not> fin ?num"
      by blast
    with div_left show ?thesis
      by blast
  next
    assume "is_zero ?den"
    with div_zero show ?thesis
      by blast
  qed
  with store have nf: "\<not> fin (to_f64 ar (op_div ar ?num ?den))"
    by blast
  from residual_summary_on_model_on [OF range(5), of ar ca cb cc b1 b2 b3 b4 b5] out(1)
  have "map_sum id fst (residual_summary_on ar ndpts ca cb cc r [b1, b2, b3, b4, b5]) = Inr out"
    by simp
  then obtain ssr where
    "residual_summary_on ar ndpts ca cb cc r [b1, b2, b3, b4, b5] = Inr (out, ssr)"
    by (cases "residual_summary_on ar ndpts ca cb cc r [b1, b2, b3, b4, b5]") auto
  with out nf show ?thesis by auto
qed

theorem degenerate_rate_not_finite_witness:
  "(0::nat) < 13 \<and> 13 \<le> length CA_exp \<and> 13 \<le> length CB_exp \<and> 13 \<le> length CC_exp \<and>
   length rate_exp = 13 \<and>
   (\<exists>rate_model. model_on ideal 13 [CA_exp, CB_exp, CC_exp]
        [Fin 1, Fin 0.1, Fin 0.1, Fin 0.1, Fin 0] = Inr rate_model \<and>
      \<not> is_finite (rate_model ! 0)) \<and>
   (\<exists>rate_predict ssr.
      residual_summary_on ideal 13 CA_exp CB_exp CC_exp rate_exp
        [Fin 1, Fin 0.1, Fin 0.1, Fin 0.1, Fin 0] = Inr (rate_predict, ssr) \<and>
      \<not> is_finite (rate_predict ! 0))"
proof -
  have laws:
    "\<forall>x z. z = Fin 0 \<longrightarrow> \<not> is_finite (op_div ideal x z)"
    "\<forall>x y. \<not> is_finite y \<longrightarrow> \<not> is_finite (op_sub ideal x y)"
    "\<forall>x y. \<not> is_finite x \<longrightarrow> \<not> is_finite (op_div ideal x y)"
    "\<forall>x. \<not> is_finite x \<longrightarrow> \<not> is_finite (to_f64 ideal x)"
    by (simp_all add: not_finite_div_zero not_finite_sub_right not_finite_div_left)
  have data: "(0::nat) < 13" "13 \<le> length CA_exp" "13 \<le> length CB_exp" "13 \<le> length CC_exp"
    "length rate_exp = 13"
    by (simp_all add: CA_exp_def CB_exp_def CC_exp_def rate_exp_def)
  from degenerate_rate_not_finite [where is_zero = "\<lambda>z. z = Fin 0" and fin = is_finite
      and ar = ideal and ?b5.0 = "Fin 0", OF laws data]
  show ?thesis using data by simp
qed

section \<open>Confidence intervals\<close>

text \<open>
  The loop over index, estimate and variance: when the indices are distinct and in range
  it returns, writes the interval of every triple it visits and leaves the other rows.
\<close>

lemma ci_loop_on_in_range:
  assumes "distinct (map fst zs)" "\<forall>z\<in>set zs. fst z < length ci"
  shows "\<exists>out. ci_loop_on ar tval zs ci = Inr out \<and> length out = length ci \<and>
           (\<forall>i p v. (i, p, v) \<in> set zs \<longrightarrow>
              out ! i = (to_f64 ar (op_sub ar p (op_mul ar (op_pow_half ar v) tval)),
                         to_f64 ar (op_add ar p (op_mul ar (op_pow_half ar v) tval)))) \<and>
           (\<forall>j<length ci. j \<notin> fst ` set zs \<longrightarrow> out ! j = ci ! j)"
  using assms
proof (induction zs arbitrary: ci)
  case Nil
  then show ?case by simp
next
  case (Cons z rest)
  obtain i p v where z: "z = (i, p, v)"
    by (cases z) auto
  let ?row = "(to_f64 ar (op_sub ar p (op_mul ar (op_pow_half ar v) tval)),
               to_f64 ar (op_add ar p (op_mul ar (op_pow_half ar v) tval)))"
  have i: "i < length ci" "i \<notin> fst ` set rest"
    using Cons.prems z by auto
  have "distinct (map fst rest)" "\<forall>z\<in>set rest. fst z < length (ci[i := ?row])"
    using Cons.prems by simp_all
  from Cons.IH [OF this] obtain out where out:
    "ci_loop_on ar tval rest (ci[i := ?row]) = Inr out" "length out = length ci"
    "\<forall>i p v. (i, p, v) \<in> set rest \<longrightarrow>
        out ! i = (to_f64 ar (op_sub ar p (op_mul ar (op_pow_half ar v) tval)),
                   to_f64 ar (op_add ar p (op_mul ar (op_pow_half ar v) tval)))"
    "\<forall>j<length ci. j \<notin> fst ` set rest \<longrightarrow> out ! j = ci[i := ?row] ! j"
    by auto
  have run: "ci_loop_on ar tval (z # rest) ci = Inr out"
    using z i(1) out(1) by (simp add: Let_def)
  have here: "out ! i = ?row"
    using out(4) i by simp
  have written: "\<forall>i' p' v'. (i', p', v') \<in> set (z # rest) \<longrightarrow>
        out ! i' = (to_f64 ar (op_sub ar p' (op_mul ar (op_pow_half ar v') tval)),
                    to_f64 ar (op_add ar p' (op_mul ar (op_pow_half ar v') tval)))"
    using out(3) here z by auto
  have kept: "\<forall>j<length ci. j \<notin> fst ` set (z # rest) \<longrightarrow> out ! j = ci ! j"
    using out(4) z by auto
  from run out(2) written kept show ?case by blast
qed

text \<open>
  The array after the loop of the notebook: the rows below \<open>min N P\<close> are written, the
  others keep their zeros.
\<close>

lemma ci_array_on_rows:
  assumes "length popt = P" "length pvar = P"
  shows "\<exists>ci. ci_array_on ar ppf alpha N P popt pvar = Inr ci \<and> length ci = P \<and>
           (\<forall>i<P. ci ! i =
              (if i < N
               then (to_f64 ar
                       (op_sub ar (popt ! i)
                          (op_mul ar (op_pow_half ar (pvar ! i))
                             (ppf (1 - alpha / 2) (max 0 (int N - int P))))),
                     to_f64 ar
                       (op_add ar (popt ! i)
                          (op_mul ar (op_pow_half ar (pvar ! i))
                             (ppf (1 - alpha / 2) (max 0 (int N - int P))))))
               else (fzero ar, fzero ar)))"
proof -
  let ?zs = "ci_items N popt pvar"
  let ?tval = "ppf (1 - alpha / 2) (max 0 (int N - int P))"
  let ?ci0 = "replicate P (fzero ar, fzero ar)"
  have fst_zs: "map fst ?zs = take (min N P) [0..<N]"
    using assms by (simp add: ci_items_def map_fst_zip_take)
  then have d: "distinct (map fst ?zs)"
    by simp
  have set_fst: "fst ` set ?zs = {i. i < N \<and> i < P}"
  proof -
    have "fst ` set ?zs = set (map fst ?zs)" by simp
    also have "\<dots> = {i. i < N \<and> i < P}"
      unfolding fst_zs by auto
    finally show ?thesis .
  qed
  have b: "\<forall>z\<in>set ?zs. fst z < length ?ci0"
    using set_fst by auto
  from ci_loop_on_in_range [OF d b, of ar ?tval] obtain out where out:
    "ci_loop_on ar ?tval ?zs ?ci0 = Inr out" "length out = P"
    "\<forall>i p v. (i, p, v) \<in> set ?zs \<longrightarrow>
        out ! i = (to_f64 ar (op_sub ar p (op_mul ar (op_pow_half ar v) ?tval)),
                   to_f64 ar (op_add ar p (op_mul ar (op_pow_half ar v) ?tval)))"
    "\<forall>j<P. j \<notin> fst ` set ?zs \<longrightarrow> out ! j = ?ci0 ! j"
    by auto
  have "out ! i =
          (if i < N
           then (to_f64 ar (op_sub ar (popt ! i) (op_mul ar (op_pow_half ar (pvar ! i)) ?tval)),
                 to_f64 ar (op_add ar (popt ! i) (op_mul ar (op_pow_half ar (pvar ! i)) ?tval)))
           else (fzero ar, fzero ar))" if "i < P" for i
  proof (cases "i < N")
    case True
    then have "(i, popt ! i, pvar ! i) \<in> set ?zs"
      using that assms by (auto simp: ci_items_def in_set_zip intro!: exI [of _ i])
    with out(3) True show ?thesis by simp
  next
    case False
    then have "i \<notin> fst ` set ?zs"
      using set_fst by simp
    with out(4) that False show ?thesis by simp
  qed
  moreover have "ci_array_on ar ppf alpha N P popt pvar = Inr out"
    using out(1) by (simp add: ci_array_on_def Let_def)
  ultimately show ?thesis using out(2) by blast
qed

text \<open>
  The table of a five-parameter fit: every row holds the estimate, half the width of its
  interval, and that half width relative to the estimate.
\<close>

lemma soln_on_returns:
  assumes "length popt = npars" "length pvar = npars" "npars = 5"
  shows "\<exists>ci. ci_array_on ar ppf alpha ndpts npars popt pvar = Inr ci \<and>
           soln_on ar ppf alpha ndpts npars popt pvar =
             Inr (map (\<lambda>(p, lo, hi).
                         (p, op_div ar (op_sub ar hi lo) (lit ar 2),
                          op_mul ar (op_div ar (op_div ar (op_sub ar hi lo) (lit ar 2)) p)
                            (lit ar 100)))
                    (zip popt ci))"
proof -
  from ci_array_on_rows [OF assms(1,2), of ar ppf alpha ndpts] obtain ci where ci:
    "ci_array_on ar ppf alpha ndpts npars popt pvar = Inr ci" "length ci = npars"
    by blast
  have "zip popt (map (\<lambda>(lo, hi). op_sub ar hi lo) ci) =
        map (\<lambda>(p, lo, hi). (p, op_sub ar hi lo)) (zip popt ci)"
    by (simp add: zip_map2 case_prod_unfold)
  then have "soln_on ar ppf alpha ndpts npars popt pvar =
             Inr (map (\<lambda>(p, lo, hi).
                         (p, op_div ar (op_sub ar hi lo) (lit ar 2),
                          op_mul ar (op_div ar (op_div ar (op_sub ar hi lo) (lit ar 2)) p)
                            (lit ar 100)))
                    (zip popt ci))"
    using ci assms
    by (simp add: soln_on_def conf_int_on_def param_names_def case_prod_unfold)
  with ci(1) show ?thesis by blast
qed

lemma soln_returns:
  assumes "length popt = npars" "length pvar = npars" "npars = 5"
  shows "\<exists>tab. soln ppf alpha ndpts npars popt pvar = Inr tab \<and> length tab = npars \<and>
           (\<forall>i<npars. tab ! i =
              (let tval = ppf (1 - alpha / 2) (max 0 (int ndpts - int npars));
                   m = np_mul (np_pow_half (pvar ! i)) tval;
                   w = (if i < ndpts then np_sub (np_add (popt ! i) m) (np_sub (popt ! i) m)
                        else np_sub (Fin 0) (Fin 0))
               in (popt ! i, np_div w (Fin 2),
                   np_mul (np_div (np_div w (Fin 2)) (popt ! i)) (Fin 100))))"
proof -
  from ci_array_on_rows [OF assms(1,2), of ideal ppf alpha ndpts] obtain ci where ci:
    "ci_array_on ideal ppf alpha ndpts npars popt pvar = Inr ci" "length ci = npars"
    "\<forall>i<npars. ci ! i =
        (if i < ndpts
         then (np_sub (popt ! i)
                 (np_mul (np_pow_half (pvar ! i))
                    (ppf (1 - alpha / 2) (max 0 (int ndpts - int npars)))),
               np_add (popt ! i)
                 (np_mul (np_pow_half (pvar ! i))
                    (ppf (1 - alpha / 2) (max 0 (int ndpts - int npars)))))
         else (Fin 0, Fin 0))"
    by auto
  from soln_on_returns [OF assms, of ideal ppf alpha ndpts] ci(1)
  have tab: "soln ppf alpha ndpts npars popt pvar =
             Inr (map (\<lambda>(p, lo, hi).
                         (p, np_div (np_sub hi lo) (Fin 2),
                          np_mul (np_div (np_div (np_sub hi lo) (Fin 2)) p) (Fin 100)))
                    (zip popt ci))"
    by (simp add: soln_def)
  moreover have "length (map (\<lambda>(p, lo, hi).
                         (p, np_div (np_sub hi lo) (Fin 2),
                          np_mul (np_div (np_div (np_sub hi lo) (Fin 2)) p) (Fin 100)))
                    (zip popt ci)) = npars"
    using ci(2) assms(1) by simp
  moreover have "\<forall>i<npars.
      map (\<lambda>(p, lo, hi).
             (p, np_div (np_sub hi lo) (Fin 2),
              np_mul (np_div (np_div (np_sub hi lo) (Fin 2)) p) (Fin 100)))
        (zip popt ci) ! i =
      (let tval = ppf (1 - alpha / 2) (max 0 (int ndpts - int npars));
           m = np_mul (np_pow_half (pvar ! i)) tval;
           w = (if i < ndpts then np_sub (np_add (popt ! i) m) (np_sub (popt ! i) m)
                else np_sub (Fin 0) (Fin 0))
       in (popt ! i, np_div w (Fin 2),
           np_mul (np_div (np_div w (Fin 2)) (popt ! i)) (Fin 100)))"
    using ci(2,3) assms(1) by (simp add: Let_def)
  ultimately show ?thesis by blast
qed


text \<open>
  Claim C4. With as many observations as parameters (five and five) the degrees of
  freedom are zero. If the quantile function returns a value that is not finite there, the
  computation raises nothing and every row of the table reports a half width and a
  relative width that are not finite.
\<close>

theorem soln_zero_dof_not_finite:
  assumes "ndpts = npars" "length popt = npars" "length pvar = npars" "npars = 5"
      and "\<not> is_finite (ppf (1 - alpha / 2) 0)"
  shows "\<exists>tab. soln ppf alpha ndpts npars popt pvar = Inr tab \<and> length tab = npars \<and>
           (\<forall>i<npars. \<not> is_finite (fst (snd (tab ! i))) \<and>
                       \<not> is_finite (snd (snd (tab ! i))))"
proof -
  from soln_returns [OF assms(2-4), of ppf alpha ndpts] assms(1) obtain tab where tab:
    "soln ppf alpha ndpts npars popt pvar = Inr tab" "length tab = npars"
    "\<forall>i<npars. tab ! i =
       (let tval = ppf (1 - alpha / 2) 0;
            m = np_mul (np_pow_half (pvar ! i)) tval;
            w = np_sub (np_add (popt ! i) m) (np_sub (popt ! i) m)
        in (popt ! i, np_div w (Fin 2),
            np_mul (np_div (np_div w (Fin 2)) (popt ! i)) (Fin 100)))"
    by auto
  have "\<not> is_finite (fst (snd (tab ! i))) \<and> \<not> is_finite (snd (snd (tab ! i)))"
    if "i < npars" for i
  proof -
    let ?m = "np_mul (np_pow_half (pvar ! i)) (ppf (1 - alpha / 2) 0)"
    let ?w = "np_sub (np_add (popt ! i) ?m) (np_sub (popt ! i) ?m)"
    have "\<not> is_finite ?m"
      using assms(5) by (rule not_finite_mul_right)
    then have "\<not> is_finite ?w"
      by (rule not_finite_width)
    then have half: "\<not> is_finite (np_div ?w (Fin 2))"
      by (rule not_finite_div_left)
    then have "\<not> is_finite (np_div (np_div ?w (Fin 2)) (popt ! i))"
      by (rule not_finite_div_left)
    then have "\<not> is_finite (np_mul (np_div (np_div ?w (Fin 2)) (popt ! i)) (Fin 100))"
      by (rule not_finite_mul_left)
    with half tab(3) that show ?thesis by (simp add: Let_def)
  qed
  with tab(1,2) show ?thesis by blast
qed

theorem soln_zero_dof_not_finite_witness:
  "length [Fin 1.253, Fin 0.063, Fin 0.040, Fin 0.112, Fin 1.191] = 5 \<and>
   \<not> is_finite ((\<lambda>q dof. if dof \<le> 0 then NaN else Fin 2.306) (1 - 0.05 / 2 :: real) (0::int)) \<and>
   (\<exists>tab. soln (\<lambda>q dof. if dof \<le> 0 then NaN else Fin 2.306) 0.05 5 5
            [Fin 1.253, Fin 0.063, Fin 0.040, Fin 0.112, Fin 1.191]
            [PInf, PInf, PInf, PInf, PInf] = Inr tab \<and>
      length tab = 5 \<and>
      \<not> is_finite (fst (snd (tab ! 0))) \<and> \<not> is_finite (snd (snd (tab ! 0))))"
  using soln_zero_dof_not_finite [of 5 5 "[Fin 1.253, Fin 0.063, Fin 0.040, Fin 0.112, Fin 1.191]"
      "[PInf, PInf, PInf, PInf, PInf]"
      "\<lambda>q dof. if dof \<le> 0 then NaN else Fin 2.306" "0.05"]
  by auto

text \<open>
  Claim C5. The loop of the confidence-interval computation iterates over
  \<^verbatim>\<open>range(ndpts)\<close> zipped with the \<open>P\<close> estimates and the \<open>P\<close> variances, which has
  \<open>min N P\<close> items. In whatever arithmetic, the computation of the array returns, so
  every store into its \<open>P\<close> rows is in range; the rows below \<open>N\<close> hold the interval
  computed for their parameter and the others are still zero, so for \<open>N \<ge> P\<close> every
  parameter has its interval; and the widths are taken from these rows.
\<close>

theorem ci_loop_iterations:
  assumes "length popt = P" "length pvar = P"
  shows "length (ci_items N popt pvar) = min N P \<and>
         (\<exists>ci. ci_array_on ar ppf alpha N P popt pvar = Inr ci \<and> length ci = P \<and>
            (\<forall>i<P. ci ! i =
               (if i < N
                then (to_f64 ar
                        (op_sub ar (popt ! i)
                           (op_mul ar (op_pow_half ar (pvar ! i))
                              (ppf (1 - alpha / 2) (max 0 (int N - int P))))),
                      to_f64 ar
                        (op_add ar (popt ! i)
                           (op_mul ar (op_pow_half ar (pvar ! i))
                              (ppf (1 - alpha / 2) (max 0 (int N - int P))))))
                else (fzero ar, fzero ar))) \<and>
            conf_int_on ar ppf alpha N P popt pvar =
              Inr (map (\<lambda>(lo, hi). op_sub ar hi lo) ci))"
proof -
  have "length (ci_items N popt pvar) = min N P"
    using assms by (simp add: ci_items_def)
  moreover from ci_array_on_rows [OF assms, of ar ppf alpha N] obtain ci where ci:
    "ci_array_on ar ppf alpha N P popt pvar = Inr ci" "length ci = P"
    "\<forall>i<P. ci ! i =
        (if i < N
         then (to_f64 ar
                 (op_sub ar (popt ! i)
                    (op_mul ar (op_pow_half ar (pvar ! i))
                       (ppf (1 - alpha / 2) (max 0 (int N - int P))))),
               to_f64 ar
                 (op_add ar (popt ! i)
                    (op_mul ar (op_pow_half ar (pvar ! i))
                       (ppf (1 - alpha / 2) (max 0 (int N - int P))))))
         else (fzero ar, fzero ar))"
    by blast
  moreover from ci(1) have "conf_int_on ar ppf alpha N P popt pvar =
      Inr (map (\<lambda>(lo, hi). op_sub ar hi lo) ci)"
    by (simp add: conf_int_on_def)
  ultimately show ?thesis by blast
qed

theorem ci_loop_iterations_witness:
  "length [Fin 1.253, Fin 0.063, Fin 0.040, Fin 0.112, Fin 1.191] = 5 \<and>
   length (ci_items 13 [Fin 1.253, Fin 0.063, Fin 0.040, Fin 0.112, Fin 1.191]
             [Fin 1, Fin 1, Fin 1, Fin 1, Fin 1]) = 5 \<and>
   (\<exists>ci. ci_array_on ideal (\<lambda>q dof. if dof \<le> 0 then NaN else Fin 2.306) 0.05 13 5
           [Fin 1.253, Fin 0.063, Fin 0.040, Fin 0.112, Fin 1.191]
           [Fin 1, Fin 1, Fin 1, Fin 1, Fin 1] = Inr ci \<and>
      length ci = 5 \<and> ci ! 4 = (Fin (1.191 - 2.306), Fin (1.191 + 2.306)) \<and>
      conf_int_on ideal (\<lambda>q dof. if dof \<le> 0 then NaN else Fin 2.306) 0.05 13 5
           [Fin 1.253, Fin 0.063, Fin 0.040, Fin 0.112, Fin 1.191]
           [Fin 1, Fin 1, Fin 1, Fin 1, Fin 1] = Inr (map (\<lambda>(lo, hi). np_sub hi lo) ci))"
  using ci_loop_iterations [of "[Fin 1.253, Fin 0.063, Fin 0.040, Fin 0.112, Fin 1.191]" 5
      "[Fin 1, Fin 1, Fin 1, Fin 1, Fin 1]" 13 ideal
      "\<lambda>q dof. if dof \<le> 0 then NaN else Fin 2.306" "0.05"]
  by (auto simp: np_sub_def)

section \<open>The equation system\<close>



text \<open>
  Claim C10. For every \<open>U\<close> with at least three entries, \<open>eqns\<close> returns a list as
  long as \<open>U\<close> whose entries from index 3 on are zero; for a shorter \<open>U\<close> it raises
  \<^verbatim>\<open>IndexError\<close> and returns nothing.
\<close>

theorem eqns_length:
  "(3 \<le> length U \<longrightarrow>
      (\<exists>setzero. eqns a b U = Inr setzero \<and> length setzero = length U \<and>
         (\<forall>i. 3 \<le> i \<and> i < length U \<longrightarrow> setzero ! i = Fin 0))) \<and>
   (length U < 3 \<longrightarrow> eqns a b U = Inl IndexError)"
proof (intro conjI impI)
  assume "3 \<le> length U"
  then obtain y1 y2 y3 rest where U: "U = y1 # y2 # y3 # rest"
    by (auto simp: Suc_le_length_iff eval_nat_numeral)
  show "\<exists>setzero. eqns a b U = Inr setzero \<and> length setzero = length U \<and>
         (\<forall>i. 3 \<le> i \<and> i < length U \<longrightarrow> setzero ! i = Fin 0)"
    unfolding U by (simp add: eqns_def eqns_on_def)
next
  assume "length U < 3"
  then consider "U = []" | x where "U = [x]" | x y where "U = [x, y]"
    by (auto simp: less_Suc_eq eval_nat_numeral length_Suc_conv)
  then show "eqns a b U = Inl IndexError"
    by cases (simp_all add: eqns_def eqns_on_def)
qed

theorem eqns_length_witness:
  "3 \<le> length [Fin 1, Fin 1, Fin 1, Fin 5, Fin 7] \<and>
   (\<exists>setzero. eqns (Fin 1) (Fin 2) [Fin 1, Fin 1, Fin 1, Fin 5, Fin 7] = Inr setzero \<and>
      length setzero = 5 \<and> setzero ! 3 = Fin 0 \<and> setzero ! 4 = Fin 0) \<and>
   length [Fin 1, Fin 1] < 3 \<and>
   eqns (Fin 1) (Fin 2) [Fin 1, Fin 1] = Inl IndexError"
  using eqns_length [of "[Fin 1, Fin 1, Fin 1, Fin 5, Fin 7]" "Fin 1" "Fin 2"]
    eqns_length [of "[Fin 1, Fin 1]" "Fin 1" "Fin 2"]
  by auto

text \<open>
  Over the reals, the system with \<open>a = 1\<close>, \<open>b = 2\<close> has the root
  \<open>(sqrt 11 - 1, 4 * sqrt 11 - 12, 6)\<close>, which rounds to \<open>2.3166\<close>, \<open>1.2665\<close>, \<open>6\<close>. Whether
  the library's iteration reaches it from a given guess is outside the notebook's code.
\<close>

lemma sqrt11_bounds: "3.31662 < sqrt 11" "sqrt 11 < 3.31663"
proof -
  show "3.31662 < sqrt 11"
    by (rule real_less_rsqrt) (simp add: power2_eq_square)
  show "sqrt 11 < 3.31663"
    by (rule real_less_lsqrt) (simp_all add: power2_eq_square)
qed

lemma eqns_exact_root:
  "eqns (Fin 1) (Fin 2) [Fin (sqrt 11 - 1), Fin (4 * sqrt 11 - 12), Fin 6] =
     Inr [Fin 0, Fin 0, Fin 0]"
  "\<bar>(sqrt 11 - 1) - 2.3166\<bar> < 0.00005"
  "\<bar>(4 * sqrt 11 - 12) - 1.2665\<bar> < 0.00005"
proof -
  have sq: "(sqrt 11 - 1) * (sqrt 11 - 1) = 12 - 2 * sqrt 11"
    by (simp add: algebra_simps)
  show "eqns (Fin 1) (Fin 2) [Fin (sqrt 11 - 1), Fin (4 * sqrt 11 - 12), Fin 6] =
     Inr [Fin 0, Fin 0, Fin 0]"
    by (simp add: eqns_def eqns_on_def zeros_on_def np_sub_def eval_nat_numeral sq)
  show "\<bar>(sqrt 11 - 1) - 2.3166\<bar> < 0.00005"
    using sqrt11_bounds by simp
  show "\<bar>(4 * sqrt 11 - 12) - 1.2665\<bar> < 0.00005"
    unfolding abs_less_iff using sqrt11_bounds by simp
qed

end
